theory Spec2Isabelle
  imports Complex_Main
begin

section \<open>Python values and errors\<close>

text \<open>
  The program is \<^verbatim>\<open>src/app.py\<close>: a ticker normaliser (\<^verbatim>\<open>format_ticker\<close>), Wilder's RSI
  (\<^verbatim>\<open>rsi_wilder\<close>) and the analysis (\<^verbatim>\<open>calculate_logic\<close>), called from a Streamlit page.

  Exceptions are values: a function that can raise returns \<open>py_error + 'a\<close>, with \<open>Inl\<close>
  the exception. \<open>IndexError\<close> is what \<^verbatim>\<open>.iloc[-1]\<close> and \<^verbatim>\<open>parts[1]\<close> raise out of range,
  \<open>ZeroDivisionError\<close> what \<^verbatim>\<open>1/period\<close> raises for a period of 0.
  \<open>InsufficientDataError\<close> is the error the specification names; no statement of the
  source raises it, it is in the type so that this can be said.
\<close>

datatype py_error = IndexError | ZeroDivisionError | InsufficientDataError

section \<open>Ticker strings\<close>

text \<open>
  A ticker is typed into a text box; the model takes it as a \<open>string\<close> of ASCII
  characters. \<^verbatim>\<open>str.isspace\<close> on ASCII is true of the code points 9 to 13 and 28 to 32,
  \<^verbatim>\<open>str.upper\<close> maps a..z to A..Z, \<^verbatim>\<open>str.isdigit\<close> is true of 0..9.
\<close>

definition isspace :: "char \<Rightarrow> bool" where
  "isspace c = (let n = (of_char c :: nat) in (9 \<le> n \<and> n \<le> 13) \<or> (28 \<le> n \<and> n \<le> 32))"

definition upper_char :: "char \<Rightarrow> char" where
  "upper_char c = (let n = (of_char c :: nat) in if 97 \<le> n \<and> n \<le> 122 then char_of (n - 32) else c)"

definition isdigit_char :: "char \<Rightarrow> bool" where
  "isdigit_char c = (let n = (of_char c :: nat) in 48 \<le> n \<and> n \<le> 57)"

definition strip :: "string \<Rightarrow> string" where
  "strip s = rev (dropWhile isspace (rev (dropWhile isspace s)))"

definition upper :: "string \<Rightarrow> string" where
  "upper s = map upper_char s"

definition endswith :: "string \<Rightarrow> string \<Rightarrow> bool" where
  "endswith s suf = (length suf \<le> length s \<and> drop (length s - length suf) s = suf)"

definition startswith :: "string \<Rightarrow> string \<Rightarrow> bool" where
  "startswith s pre = (take (length pre) s = pre)"

definition isdigit :: "string \<Rightarrow> bool" where
  "isdigit s = (s \<noteq> [] \<and> list_all isdigit_char s)"

text \<open>\<^verbatim>\<open>s.split(".")\<close>: the segments between the dots, one more than there are dots.\<close>

fun split_dot :: "string \<Rightarrow> string list" where
  "split_dot [] = [[]]"
| "split_dot (c # cs) =
     (if c = CHR ''.'' then [] # split_dot cs
      else (c # hd (split_dot cs)) # tl (split_dot cs))"

text \<open>\<^verbatim>\<open>s.replace(".", "-")\<close>.\<close>

definition replace_dot :: "string \<Rightarrow> string" where
  "replace_dot s = map (\<lambda>c. if c = CHR ''.'' then CHR ''-'' else c) s"

text \<open>
  \<^verbatim>\<open>s.zfill(width)\<close>: zeros on the left up to the width, after a leading sign when
  there is one; a string already that long is returned as it is.
\<close>

definition zfill :: "nat \<Rightarrow> string \<Rightarrow> string" where
  "zfill width s =
     (if width \<le> length s then s
      else (case s of
              [] \<Rightarrow> replicate width (CHR ''0'')
            | c # cs \<Rightarrow>
                if c = CHR ''+'' \<or> c = CHR ''-''
                then c # replicate (width - length s) (CHR ''0'') @ cs
                else replicate (width - length s) (CHR ''0'') @ s))"

text \<open>\<^verbatim>\<open>parts[i]\<close> on a Python list, for an index that is not negative.\<close>

definition item :: "'a list \<Rightarrow> nat \<Rightarrow> py_error + 'a" where
  "item xs i = (if i < length xs then Inr (xs ! i) else Inl IndexError)"

text \<open>
  \<^verbatim>\<open>format_ticker\<close>, lines 17 to 35. The emptiness test of line 18 is on the argument as
  it was typed; \<^verbatim>\<open>strip\<close> and \<^verbatim>\<open>upper\<close> come after it, on line 19.
\<close>

definition format_ticker :: "string \<Rightarrow> py_error + string" where
  "format_ticker s0 =
     (if s0 = [] then Inr ''AAPL''
      else
        let s = upper (strip s0) in
        if endswith s ''.HK'' then
          (let parts = split_dot s in
           case item parts 0 of
             Inl e \<Rightarrow> Inl e
           | Inr p0 \<Rightarrow>
               (case item parts 1 of
                  Inl e \<Rightarrow> Inl e
                | Inr p1 \<Rightarrow> Inr (zfill 5 p0 @ ''.'' @ p1)))
        else if CHR ''.'' \<in> set s \<and> \<not> (endswith s ''.SS'' \<or> endswith s ''.SZ'') then
          Inr (replace_dot s)
        else if isdigit s \<and> length s = 6 then
          (if startswith s ''6'' \<or> startswith s ''9'' then Inr (s @ ''.SS'') else Inr (s @ ''.SZ''))
        else Inr s)"


section \<open>Floats, series and the price table\<close>

text \<open>
  A Python or numpy float is a \<open>real option\<close>: \<open>None\<close> is NaN, \<open>Some x\<close> the number
  \<open>x\<close>. Arithmetic is that of the reals: rounding, overflow and the infinities of IEEE
  doubles are not modelled. NaN goes through every operation, and every comparison
  with NaN is false, as in Python.
\<close>

type_synonym pyfloat = "real option"

definition fsub :: "pyfloat \<Rightarrow> pyfloat \<Rightarrow> pyfloat" where
  "fsub a b = (case (a, b) of (Some x, Some y) \<Rightarrow> Some (x - y) | _ \<Rightarrow> None)"

definition fadd :: "pyfloat \<Rightarrow> pyfloat \<Rightarrow> pyfloat" where
  "fadd a b = (case (a, b) of (Some x, Some y) \<Rightarrow> Some (x + y) | _ \<Rightarrow> None)"

definition fmul :: "pyfloat \<Rightarrow> pyfloat \<Rightarrow> pyfloat" where
  "fmul a b = (case (a, b) of (Some x, Some y) \<Rightarrow> Some (x * y) | _ \<Rightarrow> None)"

text \<open>
  Division. The model has no infinity, so a zero divisor gives \<open>None\<close>; the two
  divisions of \<^verbatim>\<open>rsi_wilder\<close> never have one (the first after \<^verbatim>\<open>replace(0, nan)\<close>,
  the second because \<open>1 + rs\<close> is at least 1).
\<close>

definition fdiv :: "pyfloat \<Rightarrow> pyfloat \<Rightarrow> pyfloat" where
  "fdiv a b = (case (a, b) of (Some x, Some y) \<Rightarrow> (if y = 0 then None else Some (x / y)) | _ \<Rightarrow> None)"

definition fneg :: "pyfloat \<Rightarrow> pyfloat" where
  "fneg a = map_option uminus a"

definition fabs :: "pyfloat \<Rightarrow> pyfloat" where
  "fabs a = map_option abs a"

definition flt :: "pyfloat \<Rightarrow> pyfloat \<Rightarrow> bool" where
  "flt a b = (case (a, b) of (Some x, Some y) \<Rightarrow> x < y | _ \<Rightarrow> False)"

text \<open>
  Python's built-in \<^verbatim>\<open>max(a, b)\<close> keeps \<open>a\<close> unless \<open>b > a\<close>: when \<open>a\<close> is NaN the
  comparison is false and NaN is returned.
\<close>

definition py_max :: "pyfloat \<Rightarrow> pyfloat \<Rightarrow> pyfloat" where
  "py_max a b = (if flt a b then b else a)"

text \<open>
  \<^verbatim>\<open>s.iloc[i]\<close> on a series of \<open>n\<close> values: position \<open>i\<close> for \<open>0 \<le> i < n\<close>, position
  \<open>n + i\<close> for \<open>- n \<le> i < 0\<close>, and \<open>IndexError\<close> for any other \<open>i\<close>.
\<close>

definition iloc :: "'a list \<Rightarrow> int \<Rightarrow> py_error + 'a" where
  "iloc xs i =
     (if 0 \<le> i
      then (if i < int (length xs) then Inr (xs ! nat i) else Inl IndexError)
      else (if - i \<le> int (length xs) then Inr (xs ! (length xs - nat (- i)))
            else Inl IndexError))"

definition bind :: "py_error + 'a \<Rightarrow> ('a \<Rightarrow> py_error + 'b) \<Rightarrow> py_error + 'b" where
  "bind m f = (case m of Inl e \<Rightarrow> Inl e | Inr x \<Rightarrow> f x)"

text \<open>
  A row of the price table, with the three columns the analysis reads. The index of the
  table is the position of the row. A series that has lost rows (\<^verbatim>\<open>dropna\<close>) keeps the
  label of each value.
\<close>

record bar =
  High :: pyfloat
  Low :: pyfloat
  Close :: pyfloat

type_synonym dataframe = "bar list"

definition dropna :: "pyfloat list \<Rightarrow> (nat \<times> real) list" where
  "dropna xs =
     List.map_filter (\<lambda>(i, v). case v of None \<Rightarrow> None | Some x \<Rightarrow> Some (i, x))
       (zip [0..<length xs] xs)"

text \<open>\<^verbatim>\<open>close.shift(1)\<close>: the labels stay, the values move down by one, NaN comes first.\<close>

definition shift1 :: "(nat \<times> real) list \<Rightarrow> (nat \<times> pyfloat) list" where
  "shift1 s = zip (map fst s) (None # map (\<lambda>p. Some (snd p)) (butlast s))"

text \<open>
  A column of the table minus a series whose labels are among the table's: the result
  has the table's labels, NaN where the series has no value for the label.
\<close>

definition sub_aligned :: "pyfloat list \<Rightarrow> (nat \<times> pyfloat) list \<Rightarrow> pyfloat list" where
  "sub_aligned col s =
     map (\<lambda>(i, x). fsub x (case map_of s i of None \<Rightarrow> None | Some v \<Rightarrow> v))
       (zip [0..<length col] col)"

text \<open>\<^verbatim>\<open>max(axis=1)\<close> of a row: the largest value that is not NaN, NaN when all are.\<close>

definition max_skipna :: "pyfloat list \<Rightarrow> pyfloat" where
  "max_skipna vs =
     (case List.map_filter (\<lambda>v. v) vs of [] \<Rightarrow> None | x # xs \<Rightarrow> Some (fold max xs x))"

text \<open>
  \<^verbatim>\<open>tr.rolling(w).mean()\<close>: at each row the mean of the values of the last \<open>w\<close> rows
  that are not NaN, when there are at least \<open>min_periods\<close> of them; \<open>min_periods\<close> is
  not given, so it is \<open>w\<close>.
\<close>

definition rolling_mean :: "nat \<Rightarrow> pyfloat list \<Rightarrow> pyfloat list" where
  "rolling_mean w xs =
     map (\<lambda>i. let obs = List.map_filter (\<lambda>v. v) (drop (Suc i - w) (take (Suc i) xs))
              in if w \<le> length obs then Some (sum_list obs / real (length obs)) else None)
       [0..<length xs]"

text \<open>\<^verbatim>\<open>close.tail(n)\<close>.\<close>

definition tail :: "nat \<Rightarrow> 'a list \<Rightarrow> 'a list" where
  "tail n xs = drop (length xs - n) xs"

text \<open>
  \<^verbatim>\<open>rank(pct=True)\<close> on a series without NaN. The method is not given, so it is
  \<open>average\<close>: equal values share the mean of the ranks they occupy, which for \<open>x\<close> is
  the number of values below \<open>x\<close> plus half of (the number of values equal to \<open>x\<close>, plus
  one). \<open>pct\<close> divides the rank by the number of values.
\<close>

definition rank_pct :: "real list \<Rightarrow> real list" where
  "rank_pct xs =
     map (\<lambda>x. (real (length (filter (\<lambda>y. y < x) xs))
                + (real (length (filter (\<lambda>y. y = x) xs)) + 1) / 2) / real (length xs)) xs"

section \<open>Wilder's RSI\<close>

text \<open>\<^verbatim>\<open>close.diff()\<close>: NaN first, then each value minus the one before.\<close>

definition diff :: "pyfloat list \<Rightarrow> pyfloat list" where
  "diff xs = (case xs of [] \<Rightarrow> [] | _ # rest \<Rightarrow> None # map2 (\<lambda>a b. fsub b a) xs rest)"

definition clip_lower0 :: "pyfloat \<Rightarrow> pyfloat" where
  "clip_lower0 d = map_option (max 0) d"

definition clip_upper0 :: "pyfloat \<Rightarrow> pyfloat" where
  "clip_upper0 d = map_option (min 0) d"

text \<open>
  \<^verbatim>\<open>ewm(alpha=a, adjust=False).mean()\<close>, the loop of pandas with \<open>ignore_na=False\<close> and
  \<open>min_periods=0\<close>: \<open>weighted\<close> is the running mean, NaN until the first value that is
  not NaN, which seeds it; \<open>old_wt\<close> is the weight of the running mean, 1 after each
  value and scaled by \<open>1 - a\<close> at each row.
\<close>

fun ewm_run :: "real \<Rightarrow> pyfloat \<Rightarrow> real \<Rightarrow> pyfloat list \<Rightarrow> pyfloat list" where
  "ewm_run a weighted old_wt [] = []"
| "ewm_run a None old_wt (cur # xs) = cur # ewm_run a cur old_wt xs"
| "ewm_run a (Some w) old_wt (None # xs) = Some w # ewm_run a (Some w) (old_wt * (1 - a)) xs"
| "ewm_run a (Some w) old_wt (Some x # xs) =
     (let ow = old_wt * (1 - a); w' = (ow * w + a * x) / (ow + a)
      in Some w' # ewm_run a (Some w') 1 xs)"

definition ewm_mean :: "real \<Rightarrow> pyfloat list \<Rightarrow> pyfloat list" where
  "ewm_mean a xs = ewm_run a None 1 xs"

text \<open>\<^verbatim>\<open>avg_loss.replace(0, np.nan)\<close>.\<close>

definition replace_zero_nan :: "pyfloat \<Rightarrow> pyfloat" where
  "replace_zero_nan v = (if v = Some 0 then None else v)"

text \<open>Lines 45 to 49 of \<^verbatim>\<open>rsi_wilder\<close>: the two smoothed series.\<close>

definition avg_gain :: "pyfloat list \<Rightarrow> nat \<Rightarrow> pyfloat list" where
  "avg_gain close period = ewm_mean (1 / real period) (map clip_lower0 (diff close))"

definition avg_loss :: "pyfloat list \<Rightarrow> nat \<Rightarrow> pyfloat list" where
  "avg_loss close period =
     ewm_mean (1 / real period) (map (\<lambda>d. fneg (clip_upper0 d)) (diff close))"

text \<open>Lines 50 and 51: the relative strength and the index, row by row.\<close>

definition rsi_series :: "pyfloat list \<Rightarrow> nat \<Rightarrow> pyfloat list" where
  "rsi_series close period =
     (let rs = map2 (\<lambda>g l. fdiv g (replace_zero_nan l)) (avg_gain close period) (avg_loss close period)
      in map (\<lambda>r. fsub (Some 100) (fdiv (Some 100) (fadd (Some 1) r))) rs)"

text \<open>
  \<^verbatim>\<open>rsi_wilder\<close>, lines 44 to 51. The only statement that can raise is \<^verbatim>\<open>1/period\<close>;
  the one call of the function leaves the period at its default, 14.
\<close>

definition rsi_wilder :: "pyfloat list \<Rightarrow> nat \<Rightarrow> py_error + pyfloat list" where
  "rsi_wilder close period =
     (if period = 0 then Inl ZeroDivisionError else Inr (rsi_series close period))"

section \<open>The analysis\<close>

text \<open>
  A Python string with characters outside ASCII is the list of its code points. The
  three strings of a signal are the label, the marker and the rationale.
\<close>

type_synonym ustr = "nat list"

text \<open>
  Lines 65 to 68, the \<^verbatim>\<open>if\<close>/\<^verbatim>\<open>elif\<close> chain on the three conditions. The labels read
  add (U+52A0 U+4ED3), build (U+5EFA U+4ED3), probe (U+8BD5 U+63A2) and watch
  (U+89C2 U+5BDF); the markers are the blue, green, yellow and white circles.
\<close>

definition sig_of :: "bool \<Rightarrow> bool \<Rightarrow> bool \<Rightarrow> ustr \<times> ustr \<times> ustr" where
  "sig_of cond_A cond_B cond_C =
     (if cond_A \<and> cond_B \<and> cond_C then
        ([0x52A0, 0x4ED3], [0x1F535],
         [0x786E, 0x8BA4, 0x53CD, 0x8F6C, 0xFF0C, 0x6781, 0x9AD8, 0x6027, 0x4EF7, 0x6BD4])
      else if cond_A \<and> cond_B then
        ([0x5EFA, 0x4ED3], [0x1F7E2],
         [0x8FDB, 0x5165, 0x4EF7, 0x503C, 0x533A, 0xFF0C, 0x7B49, 0x5F85, 0x62D0, 0x5934])
      else if cond_A \<or> cond_B then
        ([0x8BD5, 0x63A2], [0x1F7E1],
         [0x6EE1, 0x8DB3, 0x5355, 0x4E00, 0x5E95, 0x90E8, 0x7279, 0x5F81])
      else
        ([0x89C2, 0x5BDF], [0x26AA],
         [0x6682, 0x65E0, 0x660E, 0x663E, 0x5E95, 0x90E8, 0x4FE1, 0x53F7]))"

record zones =
  conservative :: "pyfloat \<times> pyfloat"
  neutral :: "pyfloat \<times> pyfloat"
  aggressive :: "pyfloat \<times> pyfloat"

record adds =
  first_add :: pyfloat
  pullback :: pyfloat

record metrics =
  m_rsi :: pyfloat
  m_pr_3y :: real
  m_atr :: pyfloat

record result =
  res_last :: real
  res_sig :: "ustr \<times> ustr \<times> ustr"
  res_zones :: zones
  res_adds :: adds
  res_metrics :: metrics
  res_cond :: "bool \<times> bool \<times> bool"

text \<open>Line 70: the true range of each row of the table.\<close>

definition true_range :: "dataframe \<Rightarrow> (nat \<times> real) list \<Rightarrow> pyfloat list" where
  "true_range df close =
     (let hl = map (\<lambda>b. fsub (High b) (Low b)) df;
          hc = map fabs (sub_aligned (map High df) (shift1 close));
          lc = map fabs (sub_aligned (map Low df) (shift1 close))
      in map (\<lambda>(x, y, z). max_skipna [x, y, z]) (zip hl (zip hc lc)))"

text \<open>Lines 72 to 84: the width, the centre, the three bands and the two add-on levels.\<close>

definition zone_width :: "real \<Rightarrow> pyfloat \<Rightarrow> pyfloat" where
  "zone_width last' atr = py_max (fmul (Some 1.8) atr) (Some (last' * 0.08))"

definition zone_center :: "real \<Rightarrow> pyfloat" where
  "zone_center last' = Some (last' * 0.92)"

definition make_zones :: "pyfloat \<Rightarrow> pyfloat \<Rightarrow> zones" where
  "make_zones center width =
     \<lparr>conservative = (fadd center (fmul (Some 0.3) width), fadd center (fmul (Some 0.8) width)),
      neutral = (fsub center (fmul (Some 0.2) width), fadd center (fmul (Some 0.2) width)),
      aggressive = (fsub center (fmul (Some 0.8) width), fsub center (fmul (Some 0.3) width))\<rparr>"

definition make_adds :: "zones \<Rightarrow> adds" where
  "make_adds z =
     \<lparr>first_add = fst (neutral z),
      pullback = fdiv (fadd (fst (aggressive z)) (snd (aggressive z))) (Some 2)\<rparr>"

text \<open>
  The metadata of the company is a dictionary; \<^verbatim>\<open>calculate_logic\<close> takes it as its
  second argument and never reads it.
\<close>

datatype info_value = InfoStr string | InfoNum real | InfoNone

type_synonym info = "string \<rightharpoonup> info_value"

text \<open>
  \<^verbatim>\<open>calculate_logic\<close>, lines 53 to 90. Each \<^verbatim>\<open>.iloc\<close> can raise; the first one, on
  line 55, is the one that does when no close is left after \<^verbatim>\<open>dropna\<close>.
\<close>

definition calculate_logic :: "dataframe \<Rightarrow> info \<Rightarrow> py_error + result" where
  "calculate_logic df info =
     (let close = dropna (map Close df) in
      bind (iloc (map snd close) (- 1)) (\<lambda>last'.
      bind (rsi_wilder (map (\<lambda>p. Some (snd p)) close) 14) (\<lambda>rsi.
      bind (iloc rsi (- 1)) (\<lambda>rsi_last.
      bind (if 2 < length rsi then iloc rsi (- 2) else Inr rsi_last) (\<lambda>rsi_prev.
      bind (iloc (rank_pct (tail 756 (map snd close))) (- 1)) (\<lambda>pr_3y.
      let cond_A = (pr_3y < 0.30);
          cond_B = flt rsi_last (Some 35);
          cond_C = flt rsi_prev rsi_last;
          sig = sig_of cond_A cond_B cond_C;
          tr = true_range df close in
      bind (iloc (rolling_mean 14 tr) (- 1)) (\<lambda>atr.
      let width = zone_width last' atr;
          center = zone_center last';
          zs = make_zones center width
      in Inr \<lparr>res_last = last', res_sig = sig, res_zones = zs, res_adds = make_adds zs,
              res_metrics = \<lparr>m_rsi = rsi_last, m_pr_3y = pr_3y, m_atr = atr\<rparr>,
              res_cond = (cond_A, cond_B, cond_C)\<rparr>)))))))"

text \<open>
  The branch of the page that runs the analysis, lines 117 to 169: an empty table is
  reported with an error message and the analysis is not called; otherwise the report
  is drawn from the result, and an exception of the analysis leaves the branch.
\<close>

datatype page = NoDataMessage | Report result

definition main_branch :: "dataframe \<Rightarrow> info \<Rightarrow> py_error + page" where
  "main_branch df info =
     (if df \<noteq> [] then bind (calculate_logic df info) (\<lambda>res. Inr (Report res))
      else Inr NoDataMessage)"

text \<open>
  The percentile rank as the specification words it, for comparison: the fraction of
  the values of the trailing window that are at most the last one.
\<close>

definition spec_percentile_rank :: "nat \<Rightarrow> real list \<Rightarrow> real" where
  "spec_percentile_rank window closes =
     (let win = tail window closes
      in real (length (filter (\<lambda>y. y \<le> last win) win)) / real (length win))"

section \<open>Properties of the ticker normaliser\<close>

lemma split_dot_nonempty: "split_dot s \<noteq> []"
  by (induction s) auto

lemma length_split_dot:
  "length (split_dot s) = Suc (length (filter (\<lambda>c. c = CHR ''.'') s))"
proof (induction s)
  case Nil
  show ?case by simp
next
  case (Cons c cs)
  have "split_dot cs \<noteq> []" by (rule split_dot_nonempty)
  then have "length (tl (split_dot cs)) = length (split_dot cs) - 1" by simp
  with Cons show ?case by simp
qed

lemma split_dot_no_dot: "CHR ''.'' \<notin> set s \<Longrightarrow> split_dot s = [s]"
  by (induction s) auto

lemma split_dot_append_dot:
  "CHR ''.'' \<notin> set v \<Longrightarrow> split_dot (u @ CHR ''.'' # v) = split_dot u @ [v]"
proof (induction u)
  case Nil
  then show ?case by (simp add: split_dot_no_dot)
next
  case (Cons c u)
  have ne: "split_dot u \<noteq> []" by (rule split_dot_nonempty)
  show ?case
  proof (cases "c = CHR ''.''")
    case True
    with Cons show ?thesis by simp
  next
    case False
    with Cons ne show ?thesis by (cases "split_dot u") simp_all
  qed
qed

lemma split_dot_segments: "p \<in> set (split_dot s) \<Longrightarrow> CHR ''.'' \<notin> set p"
proof (induction s arbitrary: p)
  case Nil
  then show ?case by simp
next
  case (Cons c cs)
  have "split_dot cs \<noteq> []" by (rule split_dot_nonempty)
  then obtain q qs where q: "split_dot cs = q # qs" by (cases "split_dot cs") auto
  show ?case
  proof (cases "c = CHR ''.''")
    case True
    with Cons show ?thesis by auto
  next
    case False
    with Cons.prems q have "p = c # q \<or> p \<in> set qs" by auto
    then show ?thesis
    proof
      assume "p = c # q"
      moreover have "CHR ''.'' \<notin> set q" using Cons.IH [of q] q by simp
      ultimately show ?thesis using False by auto
    next
      assume "p \<in> set qs"
      then show ?thesis using Cons.IH [of p] q by simp
    qed
  qed
qed

lemma set_zfill: "set (zfill w p) \<subseteq> insert (CHR ''0'') (set p)"
  by (auto simp: zfill_def split: list.splits if_splits)

lemma isspace_not_dot: "isspace c \<Longrightarrow> c \<noteq> CHR ''.''"
  by (auto simp: isspace_def)

lemma upper_char_dot: "upper_char c = CHR ''.'' \<longleftrightarrow> c = CHR ''.''"
proof (cases "97 \<le> (of_char c :: nat) \<and> (of_char c :: nat) \<le> 122")
  case True
  then have "(of_char c :: nat) - 32 < 256" by linarith
  then have "((of_char c :: nat) - 32) mod 256 = of_char c - 32" by (rule mod_less)
  with True have "(of_char (upper_char c) :: nat) = of_char c - 32"
    by (simp add: upper_char_def Let_def)
  with True have "(of_char (upper_char c) :: nat) \<noteq> 46" by linarith
  then have "upper_char c \<noteq> CHR ''.''" by auto
  moreover from True have "c \<noteq> CHR ''.''" by auto
  ultimately show ?thesis by simp
next
  case False
  then show ?thesis by (auto simp: upper_char_def Let_def)
qed

lemma filter_dropWhile_disjoint:
  "(\<And>x. Q x \<Longrightarrow> \<not> P x) \<Longrightarrow> filter P (dropWhile Q xs) = filter P xs"
  by (induction xs) auto

lemma dots_strip: "filter (\<lambda>c. c = CHR ''.'') (strip s) = filter (\<lambda>c. c = CHR ''.'') s"
proof -
  have a: "filter (\<lambda>c. c = CHR ''.'') (dropWhile isspace xs) = filter (\<lambda>c. c = CHR ''.'') xs"
    for xs
    by (rule filter_dropWhile_disjoint) (simp add: isspace_not_dot)
  show ?thesis
    unfolding strip_def by (simp add: a flip: rev_filter)
qed

lemma dots_upper:
  "length (filter (\<lambda>c. c = CHR ''.'') (upper s)) = length (filter (\<lambda>c. c = CHR ''.'') s)"
  by (induction s) (auto simp: upper_def upper_char_dot)

lemma endswith_append: "endswith s suf \<longleftrightarrow> (\<exists>t. s = t @ suf)"
proof
  assume "endswith s suf"
  then have "s = take (length s - length suf) s @ suf"
    unfolding endswith_def by (metis append_take_drop_id)
  then show "\<exists>t. s = t @ suf" ..
next
  assume "\<exists>t. s = t @ suf"
  then show "endswith s suf" by (auto simp: endswith_def)
qed

lemma strip_hk:
  assumes "endswith s ''.HK''"
  shows "\<exists>u. strip s = u @ ''.HK''"
proof -
  from assms obtain t where t: "s = t @ ''.HK''" by (auto simp: endswith_append)
  have dot: "\<not> isspace (CHR ''.'')" and k: "\<not> isspace (CHR ''K'')"
    by (simp_all add: isspace_def)
  have "\<exists>u. dropWhile isspace s = u @ ''.HK''"
  proof (cases "\<forall>x\<in>set t. isspace x")
    case True
    then have "dropWhile isspace s = [] @ ''.HK''" using dot by (simp add: t dropWhile_append)
    then show ?thesis by blast
  next
    case False
    then have "dropWhile isspace s = dropWhile isspace t @ ''.HK''"
      by (auto simp add: t dropWhile_append)
    then show ?thesis by blast
  qed
  then obtain u where u: "dropWhile isspace s = u @ ''.HK''" ..
  have "strip s = u @ ''.HK''"
    unfolding strip_def u using k by simp
  then show ?thesis ..
qed

lemma upper_hk: "upper (u @ ''.HK'') = upper u @ ''.HK''"
  by (simp add: upper_def upper_char_def)

lemma strip_blank:
  assumes "list_all isspace s"
  shows "strip s = []"
proof -
  from assms have d: "dropWhile isspace s = []"
    by (simp add: list_all_iff)
  show ?thesis unfolding strip_def d by simp
qed

text \<open>
  An input of white space only, not empty, passes the test of line 18 and is stripped
  to the empty string, which no later branch changes.
\<close>

lemma format_ticker_blank:
  assumes "s \<noteq> []" and "list_all isspace s"
  shows "format_ticker s = Inr []"
  using assms by (simp add: format_ticker_def strip_blank upper_def endswith_def isdigit_def)


text \<open>
  C3. The normaliser does not return the default symbol for an input of white space only:
  three spaces give the empty string. Only the empty input gives \<open>AAPL\<close>.
\<close>

theorem format_ticker_whitespace_only:
  "format_ticker ''   '' = Inr [] \<and> format_ticker ''   '' \<noteq> Inr ''AAPL'' \<and>
   format_ticker [] = Inr ''AAPL''"
  by (simp add: format_ticker_def strip_def isspace_def upper_def endswith_def isdigit_def)

text \<open>
  C10. When the input ends in \<open>.HK\<close> and has more than one dot, the normalised string
  splits into at least three segments, the last of them \<open>HK\<close>; the result is the first
  segment filled with zeros to five characters, a dot, and the second segment. It has
  one dot only: the segments from the third on, the suffix among them, are not in it
  (\<open>X.HK.HK\<close> gives \<open>0000X.HK\<close>, whose \<open>HK\<close> is the second segment).
\<close>

theorem format_ticker_hk_multi_dot:
  assumes "endswith s ''.HK''"
    and "1 < length (filter (\<lambda>c. c = CHR ''.'') s)"
  shows "3 \<le> length (split_dot (upper (strip s))) \<and>
         last (split_dot (upper (strip s))) = ''HK'' \<and>
         format_ticker s =
           Inr (zfill 5 (split_dot (upper (strip s)) ! 0) @ ''.'' @ split_dot (upper (strip s)) ! 1) \<and>
         (\<exists>r. format_ticker s = Inr r \<and> length (filter (\<lambda>c. c = CHR ''.'') r) = 1)"
proof -
  define n where "n = upper (strip s)"
  define parts where "parts = split_dot n"
  from assms(1) obtain u where "strip s = u @ ''.HK''" using strip_hk by blast
  then have n: "n = upper u @ ''.HK''" by (simp add: n_def upper_hk)
  then have hk: "endswith n ''.HK''" by (auto simp: endswith_append)
  have "length (filter (\<lambda>c. c = CHR ''.'') n) = length (filter (\<lambda>c. c = CHR ''.'') s)"
    by (simp add: n_def dots_upper dots_strip)
  with assms(2) have len: "3 \<le> length parts"
    by (simp add: parts_def length_split_dot)
  have "split_dot (upper u @ CHR ''.'' # ''HK'') = split_dot (upper u) @ [''HK'']"
    by (rule split_dot_append_dot) simp
  then have lst: "last parts = ''HK''" by (simp add: parts_def n)
  from assms(1) have ne: "s \<noteq> []" by (auto simp: endswith_def)
  from len have l0: "0 < length parts" and l1: "1 < length parts" by linarith+
  from l0 l1 have i0: "item parts 0 = Inr (parts ! 0)" and i1: "item parts 1 = Inr (parts ! 1)"
    unfolding item_def by (simp_all only: if_True)
  have ft: "format_ticker s = Inr (zfill 5 (parts ! 0) @ ''.'' @ parts ! 1)"
    using ne hk i0 i1 unfolding format_ticker_def n_def [symmetric] Let_def parts_def [symmetric]
    by simp
  from l0 l1 have "parts ! 0 \<in> set parts" and "parts ! 1 \<in> set parts" by (simp_all only: nth_mem)
  then have d0: "CHR ''.'' \<notin> set (parts ! 0)" and d1: "CHR ''.'' \<notin> set (parts ! 1)"
    unfolding parts_def by (auto dest: split_dot_segments)
  from d0 have "CHR ''.'' \<notin> set (zfill 5 (parts ! 0))" using set_zfill [of 5 "parts ! 0"] by auto
  then have "filter (\<lambda>c. c = CHR ''.'') (zfill 5 (parts ! 0)) = []"
    by (auto simp: filter_empty_conv)
  moreover from d1 have "filter (\<lambda>c. c = CHR ''.'') (parts ! 1) = []"
    by (auto simp: filter_empty_conv)
  ultimately have "length (filter (\<lambda>c. c = CHR ''.'') (zfill 5 (parts ! 0) @ ''.'' @ parts ! 1)) = 1"
    by simp
  with ft len lst show ?thesis unfolding parts_def n_def by simp
qed

theorem format_ticker_hk_multi_dot_witness:
  "endswith ''A.B.HK'' ''.HK'' \<and> 1 < length (filter (\<lambda>c. c = CHR ''.'') ''A.B.HK'') \<and>
   format_ticker ''A.B.HK'' = Inr ''0000A.B'' \<and>
   last (split_dot (upper (strip ''A.B.HK''))) = ''HK''"
proof -
  have h1: "endswith ''A.B.HK'' ''.HK''" by (simp add: endswith_def)
  have h2: "1 < length (filter (\<lambda>c. c = CHR ''.'') ''A.B.HK'')" by simp
  have n: "upper (strip ''A.B.HK'') = ''A.B.HK''"
    by (simp add: strip_def isspace_def upper_def upper_char_def)
  have z: "zfill 5 ''A'' = ''0000A''" by (simp add: zfill_def numeral_eq_Suc)
  from format_ticker_hk_multi_dot [OF h1 h2] h1 h2 show ?thesis
    by (simp add: n z)
qed


section \<open>Properties of the analysis\<close>

subsection \<open>Indexing and lengths\<close>

lemma iloc_last: "iloc xs (- 1) = (if xs = [] then Inl IndexError else Inr (last xs))"
proof (cases "xs = []")
  case True
  then show ?thesis by (simp add: iloc_def)
next
  case False
  then have "0 < length xs" by simp
  then have "(1::int) \<le> int (length xs)" by linarith
  with False show ?thesis by (simp add: iloc_def last_conv_nth)
qed

lemma iloc_prev:
  assumes "2 \<le> length xs"
  shows "iloc xs (- 2) = Inr (xs ! (length xs - 2))"
proof -
  from assms have "(2::int) \<le> int (length xs)" by linarith
  then show ?thesis by (simp add: iloc_def)
qed

lemma dropna_empty: "dropna xs = [] \<longleftrightarrow> (\<forall>v\<in>set xs. v = None)"
proof -
  have "dropna xs = [] \<longleftrightarrow> (\<forall>p\<in>set (zip [0..<length xs] xs). snd p = None)"
    unfolding dropna_def List.map_filter_def
    by (auto simp: filter_empty_conv split: option.splits)
  also have "\<dots> \<longleftrightarrow> (\<forall>v\<in>set xs. v = None)"
  proof -
    have "snd ` set (zip [0..<length xs] xs) = set xs"
      by (metis length_upt diff_zero map_snd_zip set_map)
    then show ?thesis by (metis (no_types, lifting) image_iff imageE)
  qed
  finally show ?thesis .
qed

lemma length_ewm_run: "length (ewm_run a w ow xs) = length xs"
  by (induction a w ow xs rule: ewm_run.induct) (simp_all add: Let_def)

lemma length_diff: "length (diff xs) = length xs"
  by (cases xs) (simp_all add: diff_def)

lemma length_avg_gain: "length (avg_gain xs p) = length xs"
  by (simp add: avg_gain_def ewm_mean_def length_ewm_run length_diff)

lemma length_avg_loss: "length (avg_loss xs p) = length xs"
  by (simp add: avg_loss_def ewm_mean_def length_ewm_run length_diff)

lemma length_rsi_series: "length (rsi_series xs p) = length xs"
  by (simp add: rsi_series_def Let_def length_avg_gain length_avg_loss)

lemma length_rank_pct: "length (rank_pct xs) = length xs"
  by (simp add: rank_pct_def)

lemma tail_nonempty: "xs \<noteq> [] \<Longrightarrow> 0 < n \<Longrightarrow> tail n xs \<noteq> []"
  by (cases xs) (auto simp: tail_def)

lemma length_rolling_mean: "length (rolling_mean w xs) = length xs"
  by (simp add: rolling_mean_def)

lemma length_sub_aligned: "length (sub_aligned col s) = length col"
  by (simp add: sub_aligned_def)

lemma length_true_range: "length (true_range df close) = length df"
  by (simp add: true_range_def Let_def length_sub_aligned)

subsection \<open>What the analysis returns\<close>

lemma calculate_logic_no_close:
  assumes "dropna (map Close df) = []"
  shows "calculate_logic df info = Inl IndexError"
  using assms by (simp add: calculate_logic_def iloc_last bind_def)

text \<open>
  With one close left after \<^verbatim>\<open>dropna\<close> no statement raises, and the result is the
  record below.
\<close>

lemma calculate_logic_ok:
  assumes "dropna (map Close df) \<noteq> []"
  shows "calculate_logic df info =
     (let close = dropna (map Close df);
          last' = snd (last close);
          rsi = rsi_series (map (\<lambda>p. Some (snd p)) close) 14;
          rsi_last = last rsi;
          rsi_prev = (if 2 < length rsi then rsi ! (length rsi - 2) else rsi_last);
          pr_3y = last (rank_pct (tail 756 (map snd close)));
          cond_A = (pr_3y < 0.30);
          cond_B = flt rsi_last (Some 35);
          cond_C = flt rsi_prev rsi_last;
          atr = last (rolling_mean 14 (true_range df close));
          zs = make_zones (zone_center last') (zone_width last' atr)
      in Inr \<lparr>res_last = last', res_sig = sig_of cond_A cond_B cond_C, res_zones = zs,
              res_adds = make_adds zs,
              res_metrics = \<lparr>m_rsi = rsi_last, m_pr_3y = pr_3y, m_atr = atr\<rparr>,
              res_cond = (cond_A, cond_B, cond_C)\<rparr>)"
proof -
  define close where "close = dropna (map Close df)"
  define rsi where "rsi = rsi_series (map (\<lambda>p. Some (snd p)) close) 14"
  from assms have ne: "close \<noteq> []" by (simp add: close_def)
  have i0: "rsi_wilder (map (\<lambda>p. Some (snd p)) close) 14 = Inr rsi"
    by (simp add: rsi_wilder_def rsi_def)
  have i1: "iloc (map snd close) (- 1) = Inr (snd (last close))"
    using ne by (simp add: iloc_last last_map)
  have rne: "rsi \<noteq> []"
    using ne length_rsi_series [of "map (\<lambda>p. Some (snd p)) close" 14] by (auto simp: rsi_def)
  then have i2: "iloc rsi (- 1) = Inr (last rsi)" by (simp add: iloc_last)
  have i3: "(if 2 < length rsi then iloc rsi (- 2) else Inr (last rsi)) =
            Inr (if 2 < length rsi then rsi ! (length rsi - 2) else last rsi)"
    by (simp add: iloc_prev)
  have "tail 756 (map snd close) \<noteq> []" using ne by (simp add: tail_nonempty)
  then have "rank_pct (tail 756 (map snd close)) \<noteq> []"
    using length_rank_pct [of "tail 756 (map snd close)"] by auto
  then have i4: "iloc (rank_pct (tail 756 (map snd close))) (- 1) =
                 Inr (last (rank_pct (tail 756 (map snd close))))"
    by (simp add: iloc_last)
  have "df \<noteq> []" using assms by (auto simp: dropna_def)
  then have "rolling_mean 14 (true_range df close) \<noteq> []"
    using length_rolling_mean [of 14 "true_range df close"] length_true_range [of df close]
    by auto
  then have i5: "iloc (rolling_mean 14 (true_range df close)) (- 1) =
                 Inr (last (rolling_mean 14 (true_range df close)))"
    by (simp add: iloc_last)
  show ?thesis
    unfolding calculate_logic_def close_def [symmetric] Let_def rsi_def [symmetric]
    by (simp only: i0 i1 i2 i3 i4 i5 bind_def sum.case)
qed

lemma calculate_logic_fields:
  assumes "calculate_logic df info = Inr r"
  shows "dropna (map Close df) \<noteq> [] \<and>
         res_last r = snd (last (dropna (map Close df))) \<and>
         res_zones r = make_zones (zone_center (res_last r))
                         (zone_width (res_last r) (m_atr (res_metrics r))) \<and>
         res_adds r = make_adds (res_zones r) \<and>
         res_sig r = (case res_cond r of (a, b, c) \<Rightarrow> sig_of a b c) \<and>
         m_atr (res_metrics r) =
           last (rolling_mean 14 (true_range df (dropna (map Close df))))"
proof (cases "dropna (map Close df) = []")
  case True
  then show ?thesis using assms by (simp add: calculate_logic_no_close)
next
  case False
  from calculate_logic_ok [OF False, of info] assms False show ?thesis
    by (auto simp: Let_def)
qed

lemma calculate_logic_total:
  "calculate_logic df info = Inl IndexError \<or> (\<exists>r. calculate_logic df info = Inr r)"
proof (cases "dropna (map Close df) = []")
  case True
  then show ?thesis by (simp add: calculate_logic_no_close)
next
  case False
  from calculate_logic_ok [OF False, of info] show ?thesis by (simp add: Let_def)
qed

lemma rolling_mean_short:
  assumes "length xs < w" and "v \<in> set (rolling_mean w xs)"
  shows "v = None"
proof -
  from assms(2) obtain i where i: "i < length xs"
    and v: "v = (let obs = List.map_filter (\<lambda>v. v) (drop (Suc i - w) (take (Suc i) xs))
              in if w \<le> length obs then Some (sum_list obs / real (length obs)) else None)"
    unfolding rolling_mean_def by auto
  have "length (List.map_filter (\<lambda>v. v) (drop (Suc i - w) (take (Suc i) xs))) \<le> length xs"
    unfolding List.map_filter_def
    by (metis (no_types, lifting) length_map length_filter_le length_drop length_take
        min.cobounded1 le_trans diff_le_self)
  with assms(1) show ?thesis unfolding v Let_def by simp
qed

text \<open>With 14 rows or more whose last 14 true ranges are numbers, the mean is theirs.\<close>

lemma map_filter_Some: "List.map_filter (\<lambda>v. v) (map Some vs) = vs"
  by (induction vs) (simp_all add: List.map_filter_simps)

lemma rolling_mean_full:
  assumes "0 < w" and "length vs = w" and "drop (length xs - w) xs = map Some vs"
  shows "last (rolling_mean w xs) = Some (sum_list vs / real w)"
proof -
  from assms have ne: "xs \<noteq> []" by auto
  then have n: "0 < length xs" by simp
  have l: "last [0..<length xs] = length xs - 1" using n by simp
  have u: "[0..<length xs] \<noteq> []" using n by simp
  have s: "Suc (length xs - 1) = length xs" using n by simp
  show ?thesis
    unfolding rolling_mean_def last_map [OF u] l s
    by (simp add: assms map_filter_Some)
qed

lemma calculate_logic_short_table:
  assumes "dropna (map Close df) \<noteq> []" and "length df < 14"
  shows "\<exists>r. calculate_logic df info = Inr r \<and> m_atr (res_metrics r) = None \<and>
             res_zones r = \<lparr>conservative = (None, None), neutral = (None, None),
                             aggressive = (None, None)\<rparr>"
proof -
  let ?tr = "true_range df (dropna (map Close df))"
  have "df \<noteq> []" using assms(1) by (auto simp: dropna_def)
  then have ne: "rolling_mean 14 ?tr \<noteq> []"
    using length_rolling_mean [of 14 ?tr] length_true_range [of df "dropna (map Close df)"]
    by auto
  have "length ?tr < 14" using assms(2) by (simp add: length_true_range)
  then have atr: "last (rolling_mean 14 ?tr) = None"
    using rolling_mean_short [of ?tr 14] ne last_in_set by blast
  show ?thesis
    unfolding calculate_logic_ok [OF assms(1)] Let_def atr
    by (simp add: zone_width_def zone_center_def make_zones_def py_max_def flt_def fmul_def
        fadd_def fsub_def)
qed


subsection \<open>The signal\<close>

text \<open>
  C1. The signal is a function of the three conditions alone, and the table below
  gives it on each of the eight combinations: add when all three hold, build when A
  and B hold and C does not, probe when exactly one of A and B holds, watch when
  neither does, each with its marker and its rationale. The four labels differ.
\<close>

theorem sig_of_decision_table:
  "sig_of True True True =
     ([0x52A0, 0x4ED3], [0x1F535],
      [0x786E, 0x8BA4, 0x53CD, 0x8F6C, 0xFF0C, 0x6781, 0x9AD8, 0x6027, 0x4EF7, 0x6BD4]) \<and>
   sig_of True True False =
     ([0x5EFA, 0x4ED3], [0x1F7E2],
      [0x8FDB, 0x5165, 0x4EF7, 0x503C, 0x533A, 0xFF0C, 0x7B49, 0x5F85, 0x62D0, 0x5934]) \<and>
   sig_of True False True =
     ([0x8BD5, 0x63A2], [0x1F7E1],
      [0x6EE1, 0x8DB3, 0x5355, 0x4E00, 0x5E95, 0x90E8, 0x7279, 0x5F81]) \<and>
   sig_of True False False = sig_of True False True \<and>
   sig_of False True True = sig_of True False True \<and>
   sig_of False True False = sig_of True False True \<and>
   sig_of False False True =
     ([0x89C2, 0x5BDF], [0x26AA],
      [0x6682, 0x65E0, 0x660E, 0x663E, 0x5E95, 0x90E8, 0x4FE1, 0x53F7]) \<and>
   sig_of False False False = sig_of False False True \<and>
   distinct [fst (sig_of True True True), fst (sig_of True True False),
             fst (sig_of True False True), fst (sig_of False False True)]"
  by (simp add: sig_of_def)

subsection \<open>No close left\<close>

text \<open>
  C2, as the code has it. When no row has a close, the close series is empty after
  \<^verbatim>\<open>dropna\<close> and the analysis raises \<open>IndexError\<close> on line 55. The page does not call
  the analysis on a table without rows and shows its message instead; on a table whose
  rows all lack a close the exception leaves the branch.
\<close>

theorem calculate_logic_empty_close:
  assumes "\<forall>b\<in>set df. Close b = None"
  shows "calculate_logic df info = Inl IndexError \<and>
         main_branch df info = (if df = [] then Inr NoDataMessage else Inl IndexError)"
proof -
  from assms have "dropna (map Close df) = []" by (simp add: dropna_empty)
  then have "calculate_logic df info = Inl IndexError" by (rule calculate_logic_no_close)
  then show ?thesis by (simp add: main_branch_def bind_def)
qed

theorem calculate_logic_empty_close_witness:
  "Close \<lparr>High = None, Low = None, Close = None\<rparr> = None \<and>
   calculate_logic [\<lparr>High = None, Low = None, Close = None\<rparr>] Map.empty = Inl IndexError \<and>
   main_branch [\<lparr>High = None, Low = None, Close = None\<rparr>] Map.empty = Inl IndexError"
  using calculate_logic_empty_close [of "[\<lparr>High = None, Low = None, Close = None\<rparr>]" Map.empty]
  by simp

text \<open>C2 as stated fails: the exception is \<open>IndexError\<close>, not \<open>InsufficientDataError\<close>.\<close>

theorem no_insufficient_data_error:
  "dropna (map Close [\<lparr>High = None, Low = None, Close = None\<rparr>]) = [] \<and>
   calculate_logic [\<lparr>High = None, Low = None, Close = None\<rparr>] Map.empty = Inl IndexError \<and>
   calculate_logic [\<lparr>High = None, Low = None, Close = None\<rparr>] Map.empty
     \<noteq> Inl InsufficientDataError"
proof -
  have d: "dropna (map Close [\<lparr>High = None, Low = None, Close = None\<rparr>]) = []"
    by (simp add: dropna_empty)
  from calculate_logic_no_close [OF d, of Map.empty] d show ?thesis by simp
qed

subsection \<open>The average true range on a short table\<close>

text \<open>
  C7, as the code has it. On a table of fewer than 14 rows with a close left, the
  analysis returns a result whose last price is the last close; its ATR is NaN, since
  the rolling mean wants 14 values, and so are the bounds of the three zones.
\<close>

theorem atr_short_table:
  assumes "dropna (map Close df) \<noteq> []" and "length df < 14"
  shows "\<exists>r. calculate_logic df info = Inr r \<and>
             res_last r = snd (last (dropna (map Close df))) \<and>
             m_atr (res_metrics r) = None \<and>
             res_zones r = \<lparr>conservative = (None, None), neutral = (None, None),
                             aggressive = (None, None)\<rparr>"
proof -
  from calculate_logic_short_table [OF assms, of info] obtain r
    where r: "calculate_logic df info = Inr r" "m_atr (res_metrics r) = None"
      "res_zones r = \<lparr>conservative = (None, None), neutral = (None, None),
                       aggressive = (None, None)\<rparr>"
    by blast
  from calculate_logic_fields [OF r(1)] have "res_last r = snd (last (dropna (map Close df)))"
    by simp
  with r show ?thesis by blast
qed

theorem atr_short_table_witness:
  "dropna (map Close [\<lparr>High = Some 2, Low = Some 1, Close = Some 2\<rparr>]) \<noteq> [] \<and>
   length [\<lparr>High = Some 2, Low = Some 1, Close = Some 2\<rparr>] < 14 \<and>
   (\<exists>r. calculate_logic [\<lparr>High = Some 2, Low = Some 1, Close = Some 2\<rparr>] Map.empty = Inr r \<and>
        res_last r = 2 \<and> m_atr (res_metrics r) = None)"
proof -
  let ?df = "[\<lparr>High = Some 2, Low = Some 1, Close = Some 2\<rparr>]"
  have h1: "dropna (map Close ?df) \<noteq> []" by (simp add: dropna_empty)
  have h2: "length ?df < 14" by simp
  have d: "dropna (map Close ?df) = [(0, 2)]" by (simp add: dropna_def)
  from atr_short_table [OF h1 h2, of Map.empty] h1 h2 show ?thesis
    unfolding d by auto
qed

text \<open>
  C7 as stated fails on a table of one row: its true range is 1, the rolling mean of
  that one value is NaN, and the ATR of the result is NaN, not 1.
\<close>

theorem atr_one_bar_is_nan:
  "true_range [\<lparr>High = Some 2, Low = Some 1, Close = Some 2\<rparr>]
     (dropna (map Close [\<lparr>High = Some 2, Low = Some 1, Close = Some 2\<rparr>])) = [Some 1] \<and>
   rolling_mean 14 [Some 1] = [None] \<and>
   (\<exists>r. calculate_logic [\<lparr>High = Some 2, Low = Some 1, Close = Some 2\<rparr>] Map.empty = Inr r \<and>
        m_atr (res_metrics r) = None \<and> m_atr (res_metrics r) \<noteq> Some 1)"
proof -
  let ?df = "[\<lparr>High = Some 2, Low = Some 1, Close = Some 2\<rparr>]"
  have d: "dropna (map Close ?df) = [(0, 2)]" by (simp add: dropna_def)
  have tr: "true_range ?df [(0, 2)] = [Some 1]"
    by (simp add: true_range_def sub_aligned_def shift1_def fsub_def fabs_def max_skipna_def)
  have rm: "rolling_mean 14 [Some 1] = [None]"
    by (simp add: rolling_mean_def)
  have "dropna (map Close ?df) \<noteq> []" unfolding d by simp
  from calculate_logic_short_table [OF this, of Map.empty] tr rm show ?thesis
    unfolding d by auto
qed

subsection \<open>The zones\<close>



subsection \<open>The metadata\<close>

text \<open>
  C9. The analysis gives the same outcome, result or exception, for any two metadata
  dictionaries, the empty one included.
\<close>

theorem calculate_logic_ignores_info:
  "calculate_logic df info1 = calculate_logic df info2 \<and>
   calculate_logic df Map.empty = calculate_logic df info1"
  by (simp add: calculate_logic_def)

subsection \<open>The range of the RSI\<close>

lemma ewm_run_nonneg:
  "0 < a \<Longrightarrow> a \<le> 1 \<Longrightarrow> 0 \<le> ow \<Longrightarrow> (\<And>u. w = Some u \<Longrightarrow> 0 \<le> u) \<Longrightarrow>
   (\<And>u. Some u \<in> set xs \<Longrightarrow> 0 \<le> u) \<Longrightarrow>
   Some v \<in> set (ewm_run a w ow xs) \<Longrightarrow> 0 \<le> v"
proof (induction a w ow xs rule: ewm_run.induct)
  case (1 a weighted old_wt)
  then show ?case by simp
next
  case (2 a old_wt cur xs)
  from "2.prems"(6) have "Some v = cur \<or> Some v \<in> set (ewm_run a cur old_wt xs)" by auto
  then show ?case
  proof
    assume "Some v = cur"
    then show ?thesis using "2.prems"(5) by auto
  next
    assume "Some v \<in> set (ewm_run a cur old_wt xs)"
    moreover have "\<And>u. cur = Some u \<Longrightarrow> 0 \<le> u" using "2.prems"(5) by auto
    ultimately show ?thesis using "2.IH" "2.prems"(1,2,3,5) by auto
  qed
next
  case (3 a w old_wt xs)
  from "3.prems"(6) have "v = w \<or> Some v \<in> set (ewm_run a (Some w) (old_wt * (1 - a)) xs)"
    by auto
  then show ?case
  proof
    assume "v = w"
    then show ?thesis using "3.prems"(4) by simp
  next
    assume "Some v \<in> set (ewm_run a (Some w) (old_wt * (1 - a)) xs)"
    moreover have "0 \<le> old_wt * (1 - a)" using "3.prems"(2,3) by simp
    ultimately show ?thesis using "3.IH" "3.prems"(1,2,4,5) by auto
  qed
next
  case (4 a w old_wt x xs)
  define ow where "ow = old_wt * (1 - a)"
  define w' where "w' = (ow * w + a * x) / (ow + a)"
  have ow: "0 \<le> ow" using "4.prems"(2,3) by (simp add: ow_def)
  have w: "0 \<le> w" using "4.prems"(4) by simp
  have x: "0 \<le> x" using "4.prems"(5) by simp
  have "0 \<le> ow * w + a * x" using ow w x "4.prems"(1) by simp
  moreover have "0 < ow + a" using ow "4.prems"(1) by linarith
  ultimately have w': "0 \<le> w'" by (simp add: w'_def)
  from "4.prems"(6) have "v = w' \<or> Some v \<in> set (ewm_run a (Some w') 1 xs)"
    by (auto simp: Let_def ow_def w'_def)
  then show ?case
  proof
    assume "v = w'"
    then show ?thesis using w' by simp
  next
    assume "Some v \<in> set (ewm_run a (Some w') 1 xs)"
    then show ?thesis
      using "4.IH" [OF ow_def w'_def] "4.prems"(1,2,5) w' by auto
  qed
qed

lemma gain_nonneg:
  assumes "Some u \<in> set (map clip_lower0 ds)"
  shows "0 \<le> u"
proof -
  from assms obtain d where "clip_lower0 d = Some u" by auto
  then show ?thesis by (cases d) (auto simp: clip_lower0_def)
qed

lemma loss_nonneg:
  assumes "Some u \<in> set (map (\<lambda>d. fneg (clip_upper0 d)) ds)"
  shows "0 \<le> u"
proof -
  from assms obtain d where "fneg (clip_upper0 d) = Some u" by auto
  then show ?thesis by (cases d) (auto simp: clip_upper0_def fneg_def)
qed

lemma avg_gain_nonneg:
  assumes "0 < period" and "Some v \<in> set (avg_gain close period)"
  shows "0 \<le> v"
proof -
  have a: "0 < 1 / real period" and b: "1 / real period \<le> 1" using assms(1) by simp_all
  from assms(2)
  have m: "Some v \<in> set (ewm_run (1 / real period) None 1 (map clip_lower0 (diff close)))"
    by (simp add: avg_gain_def ewm_mean_def)
  show ?thesis
  proof (rule ewm_run_nonneg [OF a b _ _ _ m])
    show "(0::real) \<le> 1" by simp
    show "\<And>u. None = Some u \<Longrightarrow> 0 \<le> u" by simp
    show "\<And>u. Some u \<in> set (map clip_lower0 (diff close)) \<Longrightarrow> 0 \<le> u"
      by (rule gain_nonneg)
  qed
qed

lemma avg_loss_nonneg:
  assumes "0 < period" and "Some v \<in> set (avg_loss close period)"
  shows "0 \<le> v"
proof -
  have a: "0 < 1 / real period" and b: "1 / real period \<le> 1" using assms(1) by simp_all
  from assms(2)
  have m: "Some v \<in> set (ewm_run (1 / real period) None 1
                            (map (\<lambda>d. fneg (clip_upper0 d)) (diff close)))"
    by (simp add: avg_loss_def ewm_mean_def)
  show ?thesis
  proof (rule ewm_run_nonneg [OF a b _ _ _ m])
    show "(0::real) \<le> 1" by simp
    show "\<And>u. None = Some u \<Longrightarrow> 0 \<le> u" by simp
    show "\<And>u. Some u \<in> set (map (\<lambda>d. fneg (clip_upper0 d)) (diff close)) \<Longrightarrow> 0 \<le> u"
      by (rule loss_nonneg)
  qed
qed

text \<open>One row of the index, from the two smoothed values of the row.\<close>

lemma rsi_row_range:
  assumes "0 \<le> g" and "0 \<le> l"
    and "fsub (Some 100) (fdiv (Some 100) (fadd (Some 1) (fdiv (Some g) (replace_zero_nan (Some l))))) = Some r"
  shows "0 \<le> r \<and> r \<le> 100"
proof -
  from assms(3) have l0: "l \<noteq> 0"
    by (auto simp: replace_zero_nan_def fdiv_def fadd_def fsub_def split: if_splits)
  with assms(2) have lpos: "0 < l" by simp
  define rs where "rs = g / l"
  have rs: "0 \<le> rs" using assms(1) lpos by (simp add: rs_def)
  then have "1 + rs \<noteq> 0" by linarith
  with assms(3) l0 have r: "r = 100 - 100 / (1 + rs)"
    by (auto simp: replace_zero_nan_def fdiv_def fadd_def fsub_def rs_def split: if_splits)
  have "0 \<le> 100 / (1 + rs)" using rs by simp
  moreover have "100 / (1 + rs) \<le> 100" using rs by (simp add: divide_le_eq)
  ultimately show ?thesis unfolding r by simp
qed

lemma rsi_series_range:
  assumes "0 < period" and "Some r \<in> set (rsi_series close period)"
  shows "0 \<le> r \<and> r \<le> 100"
proof -
  from assms(2) obtain g l where gl: "(g, l) \<in> set (zip (avg_gain close period) (avg_loss close period))"
    and r: "fsub (Some 100) (fdiv (Some 100) (fadd (Some 1) (fdiv g (replace_zero_nan l)))) = Some r"
    unfolding rsi_series_def Let_def by auto
  from gl have g: "g \<in> set (avg_gain close period)" and l: "l \<in> set (avg_loss close period)"
    by (auto dest: set_zip_leftD set_zip_rightD)
  from r obtain gv lv where gv: "g = Some gv" and lv: "l = Some lv"
    by (cases g; cases l) (auto simp: fdiv_def fadd_def fsub_def replace_zero_nan_def)
  from g gv have "0 \<le> gv" using avg_gain_nonneg [OF assms(1)] by simp
  moreover from l lv have "0 \<le> lv" using avg_loss_nonneg [OF assms(1)] by simp
  ultimately show ?thesis using r unfolding gv lv by (rule rsi_row_range)
qed

lemma rsi_series_nth:
  assumes "i < length close"
  shows "rsi_series close period ! i =
         fsub (Some 100) (fdiv (Some 100) (fadd (Some 1)
           (fdiv (avg_gain close period ! i) (replace_zero_nan (avg_loss close period ! i)))))"
  using assms by (simp add: rsi_series_def Let_def length_avg_gain length_avg_loss)

lemma rsi_series_zero_loss:
  assumes "i < length close" and "avg_loss close period ! i = Some 0"
  shows "rsi_series close period ! i = None"
  unfolding rsi_series_nth [OF assms(1)] assms(2)
  by (simp add: replace_zero_nan_def fdiv_def fadd_def fsub_def split: option.splits)

text \<open>
  C4, as the code has it. Where the smoothed loss of a row is exactly 0, line 50 makes
  it NaN and the RSI of the row is NaN; nothing is raised.
\<close>

theorem rsi_wilder_zero_loss_is_nan:
  assumes "0 < period" and "i < length close" and "avg_loss close period ! i = Some 0"
  shows "\<exists>rsi. rsi_wilder close period = Inr rsi \<and> length rsi = length close \<and>
               rsi ! i = None"
  using assms by (simp add: rsi_wilder_def length_rsi_series rsi_series_zero_loss)

theorem rsi_wilder_zero_loss_is_nan_witness:
  "(0::nat) < 14 \<and> (1::nat) < length [Some 1, Some (2::real)] \<and>
   avg_loss [Some 1, Some 2] 14 ! 1 = Some 0 \<and>
   (\<exists>rsi. rsi_wilder [Some 1, Some 2] 14 = Inr rsi \<and> rsi ! 1 = None)"
proof -
  have h1: "(0::nat) < 14" by simp
  have h2: "(1::nat) < length [Some 1, Some (2::real)]" by simp
  have h3: "avg_loss [Some 1, Some 2] 14 ! 1 = Some 0"
    by (simp add: avg_loss_def ewm_mean_def diff_def fsub_def clip_upper0_def fneg_def)
  from rsi_wilder_zero_loss_is_nan [OF h1 h2 h3] h1 h2 h3 show ?thesis by blast
qed

text \<open>
  C4 as stated fails on the closes 1, 2: the smoothed loss of the second row is 0 and
  its RSI is NaN, not 100.
\<close>

theorem rsi_zero_loss_not_100:
  "avg_loss [Some 1, Some 2] 14 ! 1 = Some 0 \<and>
   rsi_wilder [Some 1, Some 2] 14 = Inr [None, None] \<and>
   rsi_wilder [Some 1, Some 2] 14 \<noteq> Inr [None, Some 100]"
  by (simp add: rsi_wilder_def rsi_series_def avg_gain_def avg_loss_def ewm_mean_def diff_def
      fsub_def clip_upper0_def clip_lower0_def fneg_def replace_zero_nan_def fdiv_def fadd_def)

text \<open>
  C5. Every value of the series that \<^verbatim>\<open>rsi_wilder\<close> returns and that is not NaN lies
  between 0 and 100, whatever the closes.
\<close>

theorem rsi_wilder_range:
  assumes "rsi_wilder close period = Inr rsi" and "Some r \<in> set rsi"
  shows "0 \<le> r \<and> r \<le> 100"
proof -
  from assms(1) have p: "0 < period" and s: "rsi = rsi_series close period"
    by (auto simp: rsi_wilder_def split: if_splits)
  from assms(2) show ?thesis unfolding s by (rule rsi_series_range [OF p])
qed

theorem rsi_wilder_range_witness:
  "rsi_wilder [Some 2, Some 1, Some 2] 14 = Inr [None, Some 0, Some (50 / 7)] \<and>
   Some (50 / 7) \<in> set [None, Some 0, Some (50 / 7 :: real)] \<and>
   (0::real) \<le> 50 / 7 \<and> (50 / 7 :: real) \<le> 100"
proof -
  have h1: "rsi_wilder [Some 2, Some 1, Some 2] 14 = Inr [None, Some 0, Some (50 / 7)]"
    by (simp add: rsi_wilder_def rsi_series_def avg_gain_def avg_loss_def ewm_mean_def diff_def
        fsub_def clip_upper0_def clip_lower0_def fneg_def replace_zero_nan_def fdiv_def fadd_def
        Let_def)
  have h2: "Some (50 / 7) \<in> set [None, Some 0, Some (50 / 7 :: real)]" by simp
  from rsi_wilder_range [OF h1 h2] h1 h2 show ?thesis by blast
qed

subsection \<open>The percentile rank\<close>

lemma count_le_split:
  "length (filter (\<lambda>y. y \<le> x) xs) =
   length (filter (\<lambda>y. y < x) xs) + length (filter (\<lambda>y. y = x) xs)"
  for x :: real
  by (induction xs) auto

lemma count_le_bound: "length (filter (\<lambda>y. y \<le> x) xs) \<le> length xs"
  by (rule length_filter_le)

lemma last_rank_pct:
  assumes "win \<noteq> []"
  shows "last (rank_pct win) =
         (real (length (filter (\<lambda>y. y < last win) win))
          + (real (length (filter (\<lambda>y. y = last win) win)) + 1) / 2) / real (length win)"
  using assms by (simp add: rank_pct_def last_map)

lemma ties_pos:
  assumes "win \<noteq> []"
  shows "1 \<le> length (filter (\<lambda>y. y = last win) win)"
proof -
  from assms have "last win \<in> set win" by simp
  then have "filter (\<lambda>y. y = last win) win \<noteq> []" by (auto simp: filter_empty_conv)
  then show ?thesis by (simp add: Suc_le_eq)
qed

lemma strictly_increasing_counts:
  fixes win :: "real list"
  assumes "sorted_wrt (<) win" and "win \<noteq> []"
  shows "length (filter (\<lambda>y. y < last win) win) = length win - 1 \<and>
         length (filter (\<lambda>y. y = last win) win) = 1"
proof -
  from assms(2) obtain ys x where win: "win = ys @ [x]" by (metis rev_exhaust)
  with assms(1) have lt: "\<forall>y\<in>set ys. y < x" by (simp add: sorted_wrt_append)
  then have "filter (\<lambda>y. y < x) ys = ys" and "filter (\<lambda>y. y = x) ys = []"
    by (auto simp: filter_empty_conv)
  then show ?thesis by (simp add: win)
qed

lemma pr_core:
  fixes win :: "real list"
  assumes "win \<noteq> []"
  defines "n \<equiv> length win"
  defines "t \<equiv> length (filter (\<lambda>y. y = last win) win)"
  defines "c \<equiv> length (filter (\<lambda>y. y \<le> last win) win)"
  shows "last (rank_pct win) = real c / real n - (real t - 1) / (2 * real n)"
    and "0 < last (rank_pct win)" and "last (rank_pct win) \<le> 1"
proof -
  define l where "l = length (filter (\<lambda>y. y < last win) win)"
  have n: "0 < n" using assms(1) by (simp add: n_def)
  have t: "1 \<le> t" unfolding t_def using assms(1) by (rule ties_pos)
  have c: "c = l + t" unfolding c_def l_def t_def by (rule count_le_split)
  have cn: "c \<le> n" unfolding c_def n_def by (rule length_filter_le)
  have p: "last (rank_pct win) = (real l + (real t + 1) / 2) / real n"
    unfolding l_def t_def n_def using assms(1) by (rule last_rank_pct)
  show "last (rank_pct win) = real c / real n - (real t - 1) / (2 * real n)"
    unfolding p c using n by (simp add: field_simps)
  have "0 < real l + (real t + 1) / 2" by (simp add: add_nonneg_pos)
  then show "0 < last (rank_pct win)" unfolding p using n by simp
  have "(real t + 1) / 2 \<le> real t" using t by simp
  then have "real l + (real t + 1) / 2 \<le> real (l + t)" by simp
  also have "\<dots> \<le> real n" using cn c by simp
  finally show "last (rank_pct win) \<le> 1" unfolding p using n by (simp add: divide_le_eq)
qed

lemma tail_sorted: "sorted_wrt (<) xs \<Longrightarrow> sorted_wrt (<) (tail n xs)"
  by (simp add: tail_def sorted_wrt_drop)

lemma pr_increasing:
  fixes win :: "real list"
  assumes "win \<noteq> []" and "sorted_wrt (<) win"
  shows "last (rank_pct win) = 1"
proof -
  from strictly_increasing_counts [OF assms(2,1)]
  have "last (rank_pct win) = (real (length win - 1) + 1) / real (length win)"
    unfolding last_rank_pct [OF assms(1)] by simp
  also have "real (length win - 1) + 1 = real (length win)" using assms(1)
    by (cases win) simp_all
  finally show ?thesis using assms(1) by simp
qed

lemma last_tail:
  assumes "xs \<noteq> []"
  shows "last (tail 756 xs) = last xs"
proof -
  from assms have "length xs - 756 < length xs" by (cases xs) simp_all
  then show ?thesis unfolding tail_def by (rule last_drop)
qed

text \<open>
  C6, as the code has it. For a series of closes that is not empty, with \<open>n\<close> the size
  of the trailing window of 756 and \<open>t\<close> the number of its values equal to the last
  close, line 59 gives the fraction of the window at most the last close, less
  \<open>(t - 1) / (2 n)\<close>: equal values share the mean of their ranks. It is above 0 and
  at most 1; it is that fraction when the last close is tied with no other value of the
  window, and 1 when the series increases strictly.
\<close>

theorem percentile_rank_average_ties:
  assumes "closes \<noteq> []"
  shows "\<exists>p. iloc (rank_pct (tail 756 closes)) (- 1) = Inr p \<and>
             p = spec_percentile_rank 756 closes
                 - (real (length (filter (\<lambda>y. y = last closes) (tail 756 closes))) - 1)
                   / (2 * real (length (tail 756 closes))) \<and>
             0 < p \<and> p \<le> 1 \<and>
             (length (filter (\<lambda>y. y = last closes) (tail 756 closes)) = 1
                \<longrightarrow> p = spec_percentile_rank 756 closes) \<and>
             (sorted_wrt (<) closes \<longrightarrow> p = 1)"
proof -
  define win where "win = tail 756 closes"
  define p where "p = last (rank_pct win)"
  have ne: "win \<noteq> []" unfolding win_def using assms by (simp add: tail_nonempty)
  have lw: "last win = last closes" unfolding win_def using assms by (rule last_tail)
  have "rank_pct win \<noteq> []" using ne length_rank_pct [of win] by auto
  then have i: "iloc (rank_pct win) (- 1) = Inr p" by (simp add: iloc_last p_def)
  have s: "spec_percentile_rank 756 closes =
           real (length (filter (\<lambda>y. y \<le> last closes) win)) / real (length win)"
    by (simp add: spec_percentile_rank_def win_def [symmetric] lw)
  have e: "p = spec_percentile_rank 756 closes
               - (real (length (filter (\<lambda>y. y = last closes) win)) - 1) / (2 * real (length win))"
    unfolding s p_def using pr_core(1) [OF ne] by (simp add: lw)
  have b: "0 < p" "p \<le> 1" unfolding p_def using pr_core(2,3) [OF ne] by simp_all
  have u: "length (filter (\<lambda>y. y = last closes) win) = 1 \<longrightarrow> p = spec_percentile_rank 756 closes"
    using e by simp
  have m: "sorted_wrt (<) closes \<longrightarrow> p = 1"
    unfolding p_def win_def using pr_increasing [OF ne [unfolded win_def]] tail_sorted by blast
  from i e b u m show ?thesis unfolding win_def by blast
qed

theorem percentile_rank_average_ties_witness:
  "[1, 2, 3 :: real] \<noteq> [] \<and>
   length (filter (\<lambda>y. y = last [1, 2, 3 :: real]) (tail 756 [1, 2, 3])) = 1 \<and>
   sorted_wrt (<) [1, 2, 3 :: real] \<and>
   iloc (rank_pct (tail 756 [1, 2, 3])) (- 1) = Inr 1 \<and>
   spec_percentile_rank 756 [1, 2, 3] = 1"
proof -
  have h1: "[1, 2, 3 :: real] \<noteq> []" by simp
  have t: "tail 756 [1, 2, 3 :: real] = [1, 2, 3]" by (simp add: tail_def)
  have h2: "length (filter (\<lambda>y. y = last [1, 2, 3 :: real]) (tail 756 [1, 2, 3])) = 1"
    unfolding t by simp
  have h3: "sorted_wrt (<) [1, 2, 3 :: real]" by simp
  from percentile_rank_average_ties [OF h1] h2 h3
  obtain p where "iloc (rank_pct (tail 756 [1, 2, 3])) (- 1) = Inr p"
    and "p = spec_percentile_rank 756 [1, 2, 3]" and "p = 1"
    by blast
  with h1 h2 h3 show ?thesis by simp
qed

text \<open>
  C6 as stated fails on the closes 1, 1: both values are at most the last one, so the
  fraction is 1, and line 59 gives 3/4.
\<close>

theorem percentile_rank_tie_counterexample:
  "iloc (rank_pct (tail 756 [1, 1])) (- 1) = Inr (3 / 4) \<and>
   spec_percentile_rank 756 [1, 1] = 1"
  by (simp add: tail_def rank_pct_def iloc_def spec_percentile_rank_def)

end
